theory Spec2Isabelle
  imports Complex_Main "HOL-Library.Word" "HOL-Library.Monad_Syntax"
begin

section \<open>Strings and numbers of the source language\<close>

text \<open>
  A string of the source is a sequence of 16-bit code units; \<open>length\<close>, \<open>slice\<close> and
  indexing count code units. String literals of the source contain Latin-1 characters
  only, so they are written as HOL strings and lifted with \<open>js\<close>.

  A number of the source is modelled by an exact rational; the rounding of the source's
  binary floating point is not part of the model. Where the source yields \<open>NaN\<close> or a
  non-finite value the model returns \<open>None\<close>. The integers that occur (channel values,
  random 24-bit colours, rounded percentages) are far below \<open>2 ^ 53\<close> and are therefore
  exact in the source as well.
\<close>

type_synonym jschar = "16 word"
type_synonym jsstring = "16 word list"

definition cu :: "char \<Rightarrow> jschar" where
  "cu c = of_char c"

definition js :: "string \<Rightarrow> jsstring" where
  "js s = map cu s"

text \<open>\<open>s.slice(i, j)\<close> for the non-negative constant indices the source uses.\<close>

definition slice :: "nat \<Rightarrow> nat \<Rightarrow> 'a list \<Rightarrow> 'a list" where
  "slice i j s = drop i (take j s)"

text \<open>\<open>s.padStart(n, c)\<close> with a one-character filler.\<close>

definition padStart :: "nat \<Rightarrow> 'a \<Rightarrow> 'a list \<Rightarrow> 'a list" where
  "padStart n c s = replicate (n - length s) c @ s"

subsection \<open>Radix 16\<close>

text \<open>The digit characters \<open>Number.prototype.toString(16)\<close> emits: lower case.\<close>

definition hexDigit :: "nat \<Rightarrow> jschar" where
  "hexDigit d = (if d < 10 then of_nat (48 + d) else of_nat (87 + d))"

fun hexDigits :: "nat \<Rightarrow> jsstring" where
  "hexDigits n = (if n < 16 then [hexDigit n] else hexDigits (n div 16) @ [hexDigit (n mod 16)])"

declare hexDigits.simps [simp del]

definition toString16 :: "int \<Rightarrow> jsstring" where
  "toString16 n = (if n < 0 then cu CHR ''-'' # hexDigits (nat (- n)) else hexDigits (nat n))"

text \<open>The value of a radix-16 digit as \<open>parseInt\<close> reads it: both cases are accepted.\<close>

definition digitValue :: "jschar \<Rightarrow> nat option" where
  "digitValue c =
     (if 0x30 \<le> c \<and> c \<le> 0x39 then Some (unat c - 48)
      else if 0x61 \<le> c \<and> c \<le> 0x66 then Some (unat c - 87)
      else if 0x41 \<le> c \<and> c \<le> 0x46 then Some (unat c - 55)
      else None)"

text \<open>
  White space that \<open>parseInt\<close> skips before the number: TAB, LF, VT, FF, CR, SP, NBSP,
  the other space separators of the Basic Multilingual Plane, LS, PS and the byte order
  mark.
\<close>

definition isStrWhiteSpace :: "jschar \<Rightarrow> bool" where
  "isStrWhiteSpace c \<longleftrightarrow>
     (0x09 \<le> c \<and> c \<le> 0x0D) \<or> c = 0x20 \<or> c = 0xA0 \<or> c = 0x1680 \<or>
     (0x2000 \<le> c \<and> c \<le> 0x200A) \<or> c = 0x2028 \<or> c = 0x2029 \<or> c = 0x202F \<or>
     c = 0x205F \<or> c = 0x3000 \<or> c = 0xFEFF"

text \<open>The longest prefix of radix-16 digits, as digit values.\<close>

fun leadingDigits :: "jsstring \<Rightarrow> nat list" where
  "leadingDigits [] = []"
| "leadingDigits (c # cs) =
     (case digitValue c of None \<Rightarrow> [] | Some d \<Rightarrow> d # leadingDigits cs)"

definition radix16 :: "nat list \<Rightarrow> nat" where
  "radix16 ds = foldl (\<lambda>a d. 16 * a + d) 0 ds"

definition stripSign :: "jsstring \<Rightarrow> int \<times> jsstring" where
  "stripSign s =
     (case s of
        [] \<Rightarrow> (1, [])
      | c # cs \<Rightarrow> if c = cu CHR ''-'' then (- 1, cs)
                 else if c = cu CHR ''+'' then (1, cs) else (1, s))"

definition stripPrefix :: "jsstring \<Rightarrow> jsstring" where
  "stripPrefix s =
     (case s of
        c # d # cs \<Rightarrow> if c = cu CHR ''0'' \<and> (d = cu CHR ''x'' \<or> d = cu CHR ''X'') then cs else s
      | _ \<Rightarrow> s)"

text \<open>
  \<open>parseInt(s, 16)\<close>: skip white space, take a sign, drop a \<open>0x\<close> prefix, read the longest
  run of digits; \<open>None\<close> is \<open>NaN\<close> (no digit). The result is exact while it is below
  \<open>2 ^ 53\<close>, that is for up to 13 digits; the source passes two characters.
\<close>

definition parseInt16 :: "jsstring \<Rightarrow> int option" where
  "parseInt16 s =
     (let (sign, t) = stripSign (dropWhile isStrWhiteSpace s);
          ds = leadingDigits (stripPrefix t)
      in if ds = [] then None else Some (sign * int (radix16 ds)))"

section \<open>Colour model\<close>

datatype rgb = RGB (rgb_r: "int option") (rgb_g: "int option") (rgb_b: "int option")

definition hexToRgb :: "jsstring \<Rightarrow> rgb" where
  "hexToRgb hex =
     (let r = parseInt16 (slice 1 3 hex);
          g = parseInt16 (slice 3 5 hex);
          b = parseInt16 (slice 5 7 hex)
      in RGB r g b)"

datatype hsl = HSL (hsl_h: rat) (hsl_s: rat) (hsl_l: rat)

text \<open>
  Division by a divisor that is not a constant: the source yields an infinity or \<open>NaN\<close>
  when the divisor is zero, the model \<open>None\<close>.
\<close>

definition jsdiv :: "rat \<Rightarrow> rat \<Rightarrow> rat option" where
  "jsdiv x y = (if y = 0 then None else Some (x / y))"

text \<open>
  \<open>switch (max)\<close> tries \<open>case r\<close>, \<open>case g\<close>, \<open>case b\<close> in this order with strict equality;
  when none matches, \<open>h\<close> keeps its initial value 0.
\<close>

definition rgbToHsl :: "rat \<Rightarrow> rat \<Rightarrow> rat \<Rightarrow> hsl option" where
  "rgbToHsl r0 g0 b0 =
     (let r = r0 / 255; g = g0 / 255; b = b0 / 255;
          mx = max (max r g) b; mn = min (min r g) b;
          l = (mx + mn) / 2
      in if mx = mn then Some (HSL (0 * 360) (0 * 100) (l * 100))
         else do {
           let d = mx - mn;
           s \<leftarrow> (if l > 1 / 2 then jsdiv d (2 - mx - mn) else jsdiv d (mx + mn));
           h \<leftarrow> (if mx = r then do { q \<leftarrow> jsdiv (g - b) d; Some (q + (if g < b then 6 else 0)) }
                else if mx = g then do { q \<leftarrow> jsdiv (b - r) d; Some (q + 2) }
                else if mx = b then do { q \<leftarrow> jsdiv (r - g) d; Some (q + 4) }
                else Some 0);
           Some (HSL (h / 6 * 360) (s * 100) (l * 100))
         })"

subsection \<open>The swatch: derived values of one colour\<close>

text \<open>
  \<open>hexToRgb(color)\<close> followed by \<open>rgbToHsl\<close>; \<open>None\<close> when a channel is \<open>NaN\<close> or the
  conversion is not finite.
\<close>

definition swatchHsl :: "jsstring \<Rightarrow> hsl option" where
  "swatchHsl hex =
     (case hexToRgb hex of
        RGB (Some r) (Some g) (Some b) \<Rightarrow> rgbToHsl (of_int r) (of_int g) (of_int b)
      | _ \<Rightarrow> None)"

text \<open>
  The shade ramp. The source interpolates three numbers into the text
  \<open>hsl(h, s%, l%)\<close>; the model returns the three numbers of each shade, in order, and
  leaves out their decimal rendering. The literal \<open>0.2\<close> is the rational \<open>1/5\<close>.
\<close>

definition shades :: "hsl \<Rightarrow> hsl list" where
  "shades c =
     map (\<lambda>i. let factor = 1 - of_nat i * (2 / 10)
              in HSL (hsl_h c) (hsl_s c) (hsl_l c * factor)) [0..<5]"

text \<open>\<open>Math.round\<close>: the nearest integer, a tie going up.\<close>

definition mathRound :: "rat \<Rightarrow> int" where
  "mathRound x = \<lfloor>x + 1 / 2\<rfloor>"

fun decDigits :: "nat \<Rightarrow> jsstring" where
  "decDigits n = (if n < 10 then [of_nat (48 + n)] else decDigits (n div 10) @ [of_nat (48 + n mod 10)])"

declare decDigits.simps [simp del]

text \<open>An integer interpolated into a template literal.\<close>

definition toString10 :: "int \<Rightarrow> jsstring" where
  "toString10 n = (if n < 0 then cu CHR ''-'' # decDigits (nat (- n)) else decDigits (nat n))"

text \<open>The text copied to the clipboard by the HSL line of the swatch.\<close>

definition hslText :: "hsl \<Rightarrow> jsstring" where
  "hslText c =
     toString10 (mathRound (hsl_h c)) @ js '', '' @
     toString10 (mathRound (hsl_s c)) @ js ''%, '' @
     toString10 (mathRound (hsl_l c)) @ js ''%''"

definition swatchHslText :: "jsstring \<Rightarrow> jsstring option" where
  "swatchHslText hex = map_option hslText (swatchHsl hex)"

section \<open>Random numbers\<close>

text \<open>
  \<open>Math.random()\<close> reads the next element of a stream of numbers and advances it; the
  stream is passed through every function that draws from it. The source guarantees
  \<open>0 \<le> x < 1\<close> for every element (\<open>unitInterval\<close>).
\<close>

type_synonym rng = "nat \<Rightarrow> rat"

definition mathRandom :: "rng \<Rightarrow> rat \<times> rng" where
  "mathRandom g = (g 0, \<lambda>n. g (Suc n))"

definition unitInterval :: "rng \<Rightarrow> bool" where
  "unitInterval g \<longleftrightarrow> (\<forall>n. 0 \<le> g n \<and> g n < 1)"

text \<open>
  \<open>xs.map((x, i) => ...)\<close> with a callback that draws random numbers: the elements are
  visited in index order and the stream is threaded through.
\<close>

fun mapRandom :: "('a \<Rightarrow> nat \<Rightarrow> rng \<Rightarrow> 'b \<times> rng) \<Rightarrow> 'a list \<Rightarrow> nat \<Rightarrow> rng \<Rightarrow> 'b list \<times> rng" where
  "mapRandom f [] i g = ([], g)"
| "mapRandom f (x # xs) i g =
     (let (y, g') = f x i g;
          (ys, g'') = mapRandom f xs (Suc i) g'
      in (y # ys, g''))"

text \<open>The remainder \<open>x % y\<close>: the quotient is truncated towards zero.\<close>

definition jsRem :: "rat \<Rightarrow> rat \<Rightarrow> rat" where
  "jsRem x y = x - y * of_int (if 0 \<le> x / y then \<lfloor>x / y\<rfloor> else \<lceil>x / y\<rceil>)"

section \<open>Palette generation\<close>

text \<open>
  The colour of one slot, from the random number \<open>y\<close> drawn for it: the template literal
  returned by the callback of \<open>generateHarmoniousPalette\<close>.
\<close>

definition randomColor :: "rat \<Rightarrow> jsstring" where
  "randomColor y = cu CHR ''#'' # padStart 6 (cu CHR ''0'') (toString16 \<lfloor>y * 16777215\<rfloor>)"

text \<open>
  The base hue takes the first random number; each of the five slots computes its rotated
  hue, which is not used afterwards, and takes the next random number for its colour.
\<close>

definition generateHarmoniousPalette :: "rng \<Rightarrow> jsstring list \<times> rng" where
  "generateHarmoniousPalette g0 =
     (let (x, g1) = mathRandom g0;
          baseHue = x * 360
      in mapRandom
           (\<lambda>_ i g.
              let hue = jsRem (baseHue + of_nat i * 72) 360;
                  (y, g') = mathRandom g
              in (randomColor y, g'))
           (replicate 5 ()) 0 g1)"

definition names :: "jsstring list" where
  "names = map js [''Sky'', ''Ocean'', ''Forest'', ''Sunset'', ''Stone'', ''Berry'', ''Cloud'', ''Dusk'']"

text \<open>\<open>names[k]\<close> interpolated into a template literal: an index out of range gives \<open>undefined\<close>.\<close>

definition nameAt :: "int \<Rightarrow> jsstring" where
  "nameAt k = (if 0 \<le> k \<and> k < int (length names) then names ! nat k else js ''undefined'')"

definition generateColorName :: "jsstring \<Rightarrow> rng \<Rightarrow> jsstring \<times> rng" where
  "generateColorName hex g =
     (let (x, g') = mathRandom g
      in (nameAt \<lfloor>x * of_nat (length names)\<rfloor> @ js ''-'' @ slice 1 4 hex, g'))"

section \<open>Palette session\<close>

record entry =
  color :: jsstring
  name :: jsstring

record adjustment =
  hue :: rat
  saturation :: rat
  brightness :: rat

record session =
  palette :: "entry list"
  adjustments :: adjustment

text \<open>
  \<open>colors.map((color) => ({ color, name: generateColorName(color) }))\<close>, the expression
  that turns the generated colours into entries.
\<close>

definition labelled :: "jsstring list \<Rightarrow> rng \<Rightarrow> entry list \<times> rng" where
  "labelled cols g =
     mapRandom (\<lambda>c _ g. let (n, g') = generateColorName c g in (\<lparr>color = c, name = n\<rparr>, g')) cols 0 g"

text \<open>\<open>handleGenerate\<close> sets the palette; it does not touch the adjustments.\<close>

definition handleGenerate :: "session \<Rightarrow> rng \<Rightarrow> session \<times> rng" where
  "handleGenerate s g =
     (let (cols, g1) = generateHarmoniousPalette g;
          (es, g2) = labelled cols g1
      in (s\<lparr>palette := es\<rparr>, g2))"

text \<open>\<open>xs.map((item, i) => ...)\<close> with a pure callback.\<close>

definition mapIndexed :: "('a \<Rightarrow> nat \<Rightarrow> 'b) \<Rightarrow> 'a list \<Rightarrow> 'b list" where
  "mapIndexed f xs = map (\<lambda>(x, i). f x i) (zip xs [0..<length xs])"

text \<open>The index is a number of the source: it need not be a position of the list.\<close>

definition updateName :: "rat \<Rightarrow> jsstring \<Rightarrow> session \<Rightarrow> session" where
  "updateName index nm s =
     s\<lparr>palette := mapIndexed (\<lambda>item i. if of_nat i = index then item\<lparr>name := nm\<rparr> else item) (palette s)\<rparr>"

section \<open>Export\<close>

subsection \<open>\<open>JSON.stringify\<close> on a list of entries\<close>

definition isLeadingSurrogate :: "jschar \<Rightarrow> bool" where
  "isLeadingSurrogate c \<longleftrightarrow> 0xD800 \<le> c \<and> c \<le> 0xDBFF"

definition isTrailingSurrogate :: "jschar \<Rightarrow> bool" where
  "isTrailingSurrogate c \<longleftrightarrow> 0xDC00 \<le> c \<and> c \<le> 0xDFFF"

text \<open>\<open>\uXXXX\<close> with four lower-case digits.\<close>

definition unicodeEscape :: "jschar \<Rightarrow> jsstring" where
  "unicodeEscape c = [0x5C, cu CHR ''u''] @ padStart 4 (cu CHR ''0'') (toString16 (uint c))"

text \<open>
  The body of a quoted string. The source walks the code points of the string: a
  leading surrogate followed by a trailing one is one code point and is copied; a
  surrogate on its own is escaped.
\<close>

fun escapeJSON :: "jsstring \<Rightarrow> jsstring" where
  "escapeJSON [] = []"
| "escapeJSON (c # cs) =
     (if c = 0x08 then [0x5C, cu CHR ''b''] @ escapeJSON cs
      else if c = 0x09 then [0x5C, cu CHR ''t''] @ escapeJSON cs
      else if c = 0x0A then [0x5C, cu CHR ''n''] @ escapeJSON cs
      else if c = 0x0C then [0x5C, cu CHR ''f''] @ escapeJSON cs
      else if c = 0x0D then [0x5C, cu CHR ''r''] @ escapeJSON cs
      else if c = 0x22 then [0x5C, 0x22] @ escapeJSON cs
      else if c = 0x5C then [0x5C, 0x5C] @ escapeJSON cs
      else if c < 0x20 then unicodeEscape c @ escapeJSON cs
      else if isLeadingSurrogate c then
        (case cs of
           [] \<Rightarrow> unicodeEscape c
         | d # ds \<Rightarrow> if isTrailingSurrogate d then c # d # escapeJSON ds
                    else unicodeEscape c @ escapeJSON cs)
      else if isTrailingSurrogate c then unicodeEscape c @ escapeJSON cs
      else c # escapeJSON cs)"

definition quoteJSONString :: "jsstring \<Rightarrow> jsstring" where
  "quoteJSONString s = [0x22] @ escapeJSON s @ [0x22]"

text \<open>\<open>parts.join(sep)\<close>.\<close>

fun joinWith :: "'a list \<Rightarrow> 'a list list \<Rightarrow> 'a list" where
  "joinWith sep [] = []"
| "joinWith sep [x] = x"
| "joinWith sep (x # y # ys) = x @ sep @ joinWith sep (y # ys)"

text \<open>
  An object given by its keys and the serialised values of its properties, written at
  indentation \<open>indent0\<close> with the indentation unit \<open>gap\<close>.
\<close>

definition serializeJSONObject :: "jsstring \<Rightarrow> jsstring \<Rightarrow> (jsstring \<times> jsstring) list \<Rightarrow> jsstring" where
  "serializeJSONObject gap indent0 members =
     (let stepback = indent0;
          indent = indent0 @ gap;
          partial = map (\<lambda>(k, v). quoteJSONString k @ js '':'' @ (if gap \<noteq> [] then js '' '' else []) @ v) members
      in if partial = [] then js ''{}''
         else if gap = [] then js ''{'' @ joinWith (js '','') partial @ js ''}''
         else js ''{'' @ [0x0A] @ indent @ joinWith (js '','' @ [0x0A] @ indent) partial @
              [0x0A] @ stepback @ js ''}'')"

text \<open>An array; each element is serialised at the indentation of the array's body.\<close>

definition serializeJSONArray :: "jsstring \<Rightarrow> jsstring \<Rightarrow> (jsstring \<Rightarrow> jsstring) list \<Rightarrow> jsstring" where
  "serializeJSONArray gap indent0 elems =
     (let stepback = indent0;
          indent = indent0 @ gap;
          partial = map (\<lambda>e. e indent) elems
      in if partial = [] then js ''[]''
         else if gap = [] then js ''['' @ joinWith (js '','') partial @ js '']''
         else js ''['' @ [0x0A] @ indent @ joinWith (js '','' @ [0x0A] @ indent) partial @
              [0x0A] @ stepback @ js '']'')"

text \<open>An entry has the own properties \<open>color\<close> and \<open>name\<close>, in this order; both are strings.\<close>

definition serializeEntry :: "jsstring \<Rightarrow> entry \<Rightarrow> jsstring \<Rightarrow> jsstring" where
  "serializeEntry gap e indent0 =
     serializeJSONObject gap indent0
       [(js ''color'', quoteJSONString (color e)), (js ''name'', quoteJSONString (name e))]"

text \<open>\<open>JSON.stringify(palette, null, 2)\<close>: the indentation unit is two spaces.\<close>

definition stringifyPalette :: "entry list \<Rightarrow> jsstring" where
  "stringifyPalette p = serializeJSONArray (js ''  '') [] (map (serializeEntry (js ''  '')) p)"

text \<open>
  \<open>handleExport\<close>: the text handed to the download as \<open>palette.json\<close>. The session is
  not changed.
\<close>

definition handleExport :: "session \<Rightarrow> jsstring" where
  "handleExport s = stringifyPalette (palette s)"

subsection \<open>Reading an exported file back\<close>

text \<open>
  A reader for the exported format, written from the description of the format: a JSON
  array of objects with the string fields \<open>color\<close> and \<open>name\<close>. It accepts JSON white
  space between tokens and every string escape of JSON.
\<close>

datatype token = LBracket | RBracket | LBrace | RBrace | Colon | Comma | Str jsstring

definition isJSONWhiteSpace :: "jschar \<Rightarrow> bool" where
  "isJSONWhiteSpace c \<longleftrightarrow> c = 0x20 \<or> c = 0x09 \<or> c = 0x0A \<or> c = 0x0D"

definition simpleEscape :: "jschar \<Rightarrow> jschar option" where
  "simpleEscape c =
     (if c = 0x22 then Some 0x22
      else if c = 0x5C then Some 0x5C
      else if c = cu CHR ''/'' then Some (cu CHR ''/'')
      else if c = cu CHR ''b'' then Some 0x08
      else if c = cu CHR ''f'' then Some 0x0C
      else if c = cu CHR ''n'' then Some 0x0A
      else if c = cu CHR ''r'' then Some 0x0D
      else if c = cu CHR ''t'' then Some 0x09
      else None)"

definition hex4 :: "jschar \<Rightarrow> jschar \<Rightarrow> jschar \<Rightarrow> jschar \<Rightarrow> jschar option" where
  "hex4 a b c d =
     (case (digitValue a, digitValue b, digitValue c, digitValue d) of
        (Some x, Some y, Some z, Some w) \<Rightarrow> Some (of_nat (radix16 [x, y, z, w]))
      | _ \<Rightarrow> None)"

text \<open>
  The tokens of a text. The first argument is \<open>None\<close> between tokens and holds the
  characters read so far inside a string.
\<close>

fun tokenize :: "jsstring option \<Rightarrow> jsstring \<Rightarrow> token list option" where
  "tokenize None [] = Some []"
| "tokenize (Some acc) [] = None"
| "tokenize None (c # cs) =
     (if isJSONWhiteSpace c then tokenize None cs
      else if c = cu CHR ''['' then map_option (Cons LBracket) (tokenize None cs)
      else if c = cu CHR '']'' then map_option (Cons RBracket) (tokenize None cs)
      else if c = cu CHR ''{'' then map_option (Cons LBrace) (tokenize None cs)
      else if c = cu CHR ''}'' then map_option (Cons RBrace) (tokenize None cs)
      else if c = cu CHR '':'' then map_option (Cons Colon) (tokenize None cs)
      else if c = cu CHR '','' then map_option (Cons Comma) (tokenize None cs)
      else if c = 0x22 then tokenize (Some []) cs
      else None)"
| "tokenize (Some acc) (c # cs) =
     (if c = 0x22 then map_option (Cons (Str acc)) (tokenize None cs)
      else if c = 0x5C then
        (case cs of
           [] \<Rightarrow> None
         | e # es \<Rightarrow>
             if e = cu CHR ''u'' then
               (case es of
                  x # y # z # w # rest \<Rightarrow>
                    (case hex4 x y z w of
                       None \<Rightarrow> None
                     | Some u \<Rightarrow> tokenize (Some (acc @ [u])) rest)
                | _ \<Rightarrow> None)
             else
               (case simpleEscape e of
                  None \<Rightarrow> None
                | Some u \<Rightarrow> tokenize (Some (acc @ [u])) es))
      else if c < 0x20 then None
      else tokenize (Some (acc @ [c])) cs)"

text \<open>One object \<open>{"color": c, "name": n}\<close>: exactly nine tokens.\<close>

definition parseEntry :: "token list \<Rightarrow> (jsstring \<times> jsstring) option" where
  "parseEntry ts =
     (case ts of
        [LBrace, Str k1, Colon, Str c, Comma, Str k2, Colon, Str n, RBrace] \<Rightarrow>
          if k1 = js ''color'' \<and> k2 = js ''name'' then Some (c, n) else None
      | _ \<Rightarrow> None)"

text \<open>The elements of a non-empty array after its opening bracket.\<close>

function parseEntries :: "token list \<Rightarrow> (jsstring \<times> jsstring) list option" where
  "parseEntries ts =
     (case parseEntry (take 9 ts) of
        None \<Rightarrow> None
      | Some e \<Rightarrow>
          (case drop 9 ts of
             [RBracket] \<Rightarrow> Some [e]
           | Comma # ts' \<Rightarrow> map_option (Cons e) (parseEntries ts')
           | _ \<Rightarrow> None))"
  by pat_completeness auto
termination
proof (relation "measure length")
  show "wf (measure length)"
    by simp
next
  fix ts :: "token list" and e x21 ts'
  assume "drop 9 ts = x21 # ts'"
  then have "length (drop 9 ts) = Suc (length ts')"
    by simp
  then show "(ts', ts) \<in> measure length"
    by simp
qed

declare parseEntries.simps [simp del]

definition parseSnapshot :: "jsstring \<Rightarrow> (jsstring \<times> jsstring) list option" where
  "parseSnapshot s =
     (case tokenize None s of
        None \<Rightarrow> None
      | Some [LBracket, RBracket] \<Rightarrow> Some []
      | Some (LBracket # ts) \<Rightarrow> parseEntries ts
      | Some _ \<Rightarrow> None)"

text \<open>
  The tokens of an exported palette: nine per entry, a comma between entries and the
  closing bracket at the end.
\<close>

definition entryTokens :: "entry \<Rightarrow> token list" where
  "entryTokens e =
     [LBrace, Str (js ''color''), Colon, Str (color e), Comma,
      Str (js ''name''), Colon, Str (name e), RBrace]"

fun bodyTokens :: "entry list \<Rightarrow> token list" where
  "bodyTokens [] = []"
| "bodyTokens [e] = entryTokens e @ [RBracket]"
| "bodyTokens (e # e' # es) = entryTokens e @ Comma # bodyTokens (e' # es)"

section \<open>Vocabulary of the specification\<close>

text \<open>A valid colour: \<open>#\<close> followed by exactly six hexadecimal digits of either case.\<close>

definition isHexDigit :: "jschar \<Rightarrow> bool" where
  "isHexDigit c \<longleftrightarrow>
     (0x30 \<le> c \<and> c \<le> 0x39) \<or> (0x61 \<le> c \<and> c \<le> 0x66) \<or> (0x41 \<le> c \<and> c \<le> 0x46)"

definition validHexColor :: "jsstring \<Rightarrow> bool" where
  "validHexColor c \<longleftrightarrow>
     (case c of
        [] \<Rightarrow> False
      | h # ds \<Rightarrow> h = cu CHR ''#'' \<and> length ds = 6 \<and> list_all isHexDigit ds)"

text \<open>
  Re-encoding an RGB triple, as the specification words it: \<open>#\<close> and two digits per
  channel, written with the digits and the padding of the source.
\<close>

definition channelHex :: "int \<Rightarrow> jsstring" where
  "channelHex v = padStart 2 (cu CHR ''0'') (toString16 v)"

definition rgbToHex :: "int \<Rightarrow> int \<Rightarrow> int \<Rightarrow> jsstring" where
  "rgbToHex r g b = cu CHR ''#'' # channelHex r @ channelHex g @ channelHex b"

text \<open>Equality up to the case of the letters A to Z.\<close>

definition lowerAscii :: "jschar \<Rightarrow> jschar" where
  "lowerAscii c = (if 0x41 \<le> c \<and> c \<le> 0x5A then c + 0x20 else c)"

definition eqIgnoreCase :: "jsstring \<Rightarrow> jsstring \<Rightarrow> bool" where
  "eqIgnoreCase s t \<longleftrightarrow> map lowerAscii s = map lowerAscii t"

section \<open>Example data\<close>

text \<open>A session with two entries and a stream of random numbers, for concrete instances.\<close>

definition demo :: session where
  "demo = \<lparr>palette = [\<lparr>color = js ''#aabbcc'', name = js ''Sky-aab''\<rparr>,
                       \<lparr>color = js ''#000000'', name = js ''Dusk-000''\<rparr>],
            adjustments = \<lparr>hue = 3, saturation = 0, brightness = 0\<rparr>\<rparr>"

definition demoStream :: rng where
  "demoStream n = 1 / (of_nat n + 2)"

section \<open>Hexadecimal colours\<close>

lemma isHexDigit_cases:
  assumes "isHexDigit c"
  obtains d where "d < 16" "digitValue c = Some d" "hexDigit d = lowerAscii c"
    "\<not> isStrWhiteSpace c" "c \<noteq> cu CHR ''-''" "c \<noteq> cu CHR ''+''" "c \<noteq> cu CHR ''x''" "c \<noteq> cu CHR ''X''"
proof -
  from assms have "48 \<le> unat c \<and> unat c \<le> 57 \<or> 97 \<le> unat c \<and> unat c \<le> 102 \<or> 65 \<le> unat c \<and> unat c \<le> 70"
    by (auto simp: isHexDigit_def word_le_nat_alt)
  then have "unat c \<in> {48,49,50,51,52,53,54,55,56,57,97,98,99,100,101,102,65,66,67,68,69,70}"
    by simp arith
  then have "of_nat (unat c) \<in> (of_nat ` {48,49,50,51,52,53,54,55,56,57,97,98,99,100,101,102,65,66,67,68,69,70} :: 16 word set)"
    by (rule imageI)
  then have "c \<in> {48,49,50,51,52,53,54,55,56,57,97,98,99,100,101,102,65,66,67,68,69,70}"
    by simp
  then show thesis
    apply (elim insertE emptyE)
    apply (auto simp: digitValue_def hexDigit_def lowerAscii_def isStrWhiteSpace_def cu_def intro!: that)
    done
qed


lemma hexDigits_two:
  assumes "a < 16" "b < 16"
  shows "padStart 2 (cu CHR ''0'') (hexDigits (16 * a + b)) = [hexDigit a, hexDigit b]"
proof (cases "a = 0")
  case True
  with assms show ?thesis
    by (simp add: hexDigits.simps [of b] padStart_def hexDigit_def cu_def)
next
  case False
  with assms have "\<not> 16 * a + b < 16" "(16 * a + b) div 16 = a" "(16 * a + b) mod 16 = b"
    by simp_all
  with assms show ?thesis
    by (simp add: hexDigits.simps [of "16 * a + b"] hexDigits.simps [of a] padStart_def)
qed

lemma parseInt16_pair:
  assumes "isHexDigit a" "isHexDigit b"
  obtains v where "parseInt16 [a, b] = Some v" "0 \<le> v" "v \<le> 255"
    "channelHex v = [lowerAscii a, lowerAscii b]"
proof -
  from assms(1) obtain x where x: "x < 16" "digitValue a = Some x" "hexDigit x = lowerAscii a"
    "\<not> isStrWhiteSpace a" "a \<noteq> cu CHR ''-''" "a \<noteq> cu CHR ''+''"
    by (rule isHexDigit_cases)
  from assms(2) obtain y where y: "y < 16" "digitValue b = Some y" "hexDigit y = lowerAscii b"
    "b \<noteq> cu CHR ''x''" "b \<noteq> cu CHR ''X''"
    by (rule isHexDigit_cases)
  have p: "parseInt16 [a, b] = Some (int (16 * x + y))"
    using x y by (simp add: parseInt16_def stripSign_def stripPrefix_def radix16_def)
  have c: "channelHex (int (16 * x + y)) = [lowerAscii a, lowerAscii b]"
    using hexDigits_two [OF x(1) y(1)] x(3) y(3)
    by (simp add: channelHex_def toString16_def del: of_nat_add of_nat_mult)
  show thesis
    using p c x(1) y(1) by (intro that [of "int (16 * x + y)"]) auto
qed


lemma lowerAscii_idem: "lowerAscii (lowerAscii x) = lowerAscii x"
  by (auto simp: lowerAscii_def word_le_nat_alt unat_word_ariths)

lemma hexToRgb_valid:
  assumes "validHexColor c"
  obtains r g b where "hexToRgb c = RGB (Some r) (Some g) (Some b)"
    "0 \<le> r" "r \<le> 255" "0 \<le> g" "g \<le> 255" "0 \<le> b" "b \<le> 255"
    "rgbToHex r g b = map lowerAscii c"
proof -
  from assms obtain h ds where c: "c = h # ds" and h: "h = cu CHR ''#''"
    and len: "length ds = 6" and hex: "list_all isHexDigit ds"
    by (auto simp: validHexColor_def split: list.splits)
  from len obtain d1 d2 d3 d4 d5 d6 where ds: "ds = [d1, d2, d3, d4, d5, d6]"
    by (auto simp: length_Suc_conv eval_nat_numeral)
  from hex ds have d: "isHexDigit d1" "isHexDigit d2" "isHexDigit d3" "isHexDigit d4"
    "isHexDigit d5" "isHexDigit d6"
    by simp_all
  obtain r where r: "parseInt16 [d1, d2] = Some r" "0 \<le> r" "r \<le> 255"
    "channelHex r = [lowerAscii d1, lowerAscii d2]"
    using d(1,2) by (rule parseInt16_pair)
  obtain g where g: "parseInt16 [d3, d4] = Some g" "0 \<le> g" "g \<le> 255"
    "channelHex g = [lowerAscii d3, lowerAscii d4]"
    using d(3,4) by (rule parseInt16_pair)
  obtain b where b: "parseInt16 [d5, d6] = Some b" "0 \<le> b" "b \<le> 255"
    "channelHex b = [lowerAscii d5, lowerAscii d6]"
    using d(5,6) by (rule parseInt16_pair)
  have "hexToRgb c = RGB (Some r) (Some g) (Some b)"
    using r(1) g(1) b(1) by (simp add: hexToRgb_def c ds slice_def)
  moreover have "rgbToHex r g b = map lowerAscii c"
    using r(4) g(4) b(4) by (simp add: rgbToHex_def c ds h lowerAscii_def cu_def)
  ultimately show thesis
    using r(2,3) g(2,3) b(2,3) by (intro that)
qed

text \<open>
  Claim C1. For every valid colour \<open>c\<close> (\<open>#\<close> and six hexadecimal digits), \<open>hexToRgb c\<close>
  has three integer channels, each between 0 and 255, and encoding these channels again
  as \<open>#\<close> and six hexadecimal digits gives \<open>c\<close> up to the case of the letters.
\<close>

theorem hexToRgb_roundtrip:
  assumes "validHexColor c"
  shows "\<exists>r g b. hexToRgb c = RGB (Some r) (Some g) (Some b) \<and>
           0 \<le> r \<and> r \<le> 255 \<and> 0 \<le> g \<and> g \<le> 255 \<and> 0 \<le> b \<and> b \<le> 255 \<and>
           eqIgnoreCase (rgbToHex r g b) c"
proof -
  from assms obtain r g b where *: "hexToRgb c = RGB (Some r) (Some g) (Some b)"
    "0 \<le> r" "r \<le> 255" "0 \<le> g" "g \<le> 255" "0 \<le> b" "b \<le> 255"
    "rgbToHex r g b = map lowerAscii c"
    by (rule hexToRgb_valid)
  from *(8) have "eqIgnoreCase (rgbToHex r g b) c"
    by (simp add: eqIgnoreCase_def lowerAscii_idem)
  with * show ?thesis
    by blast
qed

theorem hexToRgb_roundtrip_witness:
  "validHexColor (js ''#3366Fa'') \<and>
   hexToRgb (js ''#3366Fa'') = RGB (Some 51) (Some 102) (Some 250) \<and>
   eqIgnoreCase (rgbToHex 51 102 250) (js ''#3366Fa'')"
proof -
  have v: "validHexColor (js ''#3366Fa'')"
    by code_simp
  have e: "hexToRgb (js ''#3366Fa'') = RGB (Some 51) (Some 102) (Some 250)"
    by code_simp
  from hexToRgb_roundtrip [OF v] e have "eqIgnoreCase (rgbToHex 51 102 250) (js ''#3366Fa'')"
    by auto
  with v e show ?thesis
    by simp
qed

section \<open>Conversion to hue, saturation and lightness\<close>

lemma rgbToHsl_unfold:
  fixes r g b :: rat
  defines "x \<equiv> r / 255" and "y \<equiv> g / 255" and "z \<equiv> b / 255"
  defines "mx \<equiv> max (max x y) z" and "mn \<equiv> min (min x y) z"
  shows "rgbToHsl r g b =
     (if mx = mn then Some (HSL 0 0 ((mx + mn) / 2 * 100))
      else do {
        s \<leftarrow> (if (mx + mn) / 2 > 1 / 2 then jsdiv (mx - mn) (2 - mx - mn) else jsdiv (mx - mn) (mx + mn));
        h \<leftarrow> (if mx = x then do { q \<leftarrow> jsdiv (y - z) (mx - mn); Some (q + (if y < z then 6 else 0)) }
             else if mx = y then do { q \<leftarrow> jsdiv (z - x) (mx - mn); Some (q + 2) }
             else if mx = z then do { q \<leftarrow> jsdiv (x - y) (mx - mn); Some (q + 4) }
             else Some 0);
        Some (HSL (h / 6 * 360) (s * 100) ((mx + mn) / 2 * 100))
      })"
  unfolding rgbToHsl_def Let_def x_def y_def z_def mx_def mn_def
  by simp

lemma saturation_bounds:
  fixes mx mn :: rat
  assumes "0 \<le> mn" "mn < mx" "mx \<le> 1"
  obtains s where
    "(if (mx + mn) / 2 > 1 / 2 then jsdiv (mx - mn) (2 - mx - mn) else jsdiv (mx - mn) (mx + mn)) = Some s"
    "0 \<le> s" "s \<le> 1"
proof (cases "(mx + mn) / 2 > 1 / 2")
  case True
  from assms have pos: "0 < 2 - mx - mn"
    by simp
  have "jsdiv (mx - mn) (2 - mx - mn) = Some ((mx - mn) / (2 - mx - mn))"
    using pos by (simp add: jsdiv_def)
  moreover have "0 \<le> (mx - mn) / (2 - mx - mn)"
    using pos assms by simp
  moreover have "(mx - mn) / (2 - mx - mn) \<le> 1"
    using pos assms by (simp add: pos_divide_le_eq)
  ultimately show thesis
    using True by (intro that [of "(mx - mn) / (2 - mx - mn)"]) simp_all
next
  case False
  from assms have pos: "0 < mx + mn"
    by simp
  have "jsdiv (mx - mn) (mx + mn) = Some ((mx - mn) / (mx + mn))"
    using pos by (simp add: jsdiv_def)
  moreover have "0 \<le> (mx - mn) / (mx + mn)"
    using pos assms by simp
  moreover have "(mx - mn) / (mx + mn) \<le> 1"
    using pos assms by (simp add: pos_divide_le_eq)
  ultimately show thesis
    using False by (intro that [of "(mx - mn) / (mx + mn)"]) simp_all
qed

lemma sector_quotient:
  fixes u v d :: rat
  assumes "0 < d" "u - v \<le> d" "v - u \<le> d"
  shows "jsdiv (u - v) d = Some ((u - v) / d)" "- 1 \<le> (u - v) / d" "(u - v) / d \<le> 1"
    "u < v \<Longrightarrow> (u - v) / d < 0" "\<not> u < v \<Longrightarrow> 0 \<le> (u - v) / d"
  using assms by (simp_all add: jsdiv_def pos_divide_le_eq pos_le_divide_eq pos_divide_less_eq)

lemma hue_bounds:
  fixes x y z :: rat
  defines "mx \<equiv> max (max x y) z" and "mn \<equiv> min (min x y) z"
  assumes "mn < mx"
  obtains h where
    "(if mx = x then do { q \<leftarrow> jsdiv (y - z) (mx - mn); Some (q + (if y < z then 6 else 0)) }
      else if mx = y then do { q \<leftarrow> jsdiv (z - x) (mx - mn); Some (q + 2) }
      else if mx = z then do { q \<leftarrow> jsdiv (x - y) (mx - mn); Some (q + 4) }
      else Some 0) = Some h"
    "0 \<le> h" "h < 6"
proof -
  have d: "0 < mx - mn"
    using assms by simp
  have yz: "y - z \<le> mx - mn" "z - y \<le> mx - mn"
    and zx: "z - x \<le> mx - mn" "x - z \<le> mx - mn"
    and xy: "x - y \<le> mx - mn" "y - x \<le> mx - mn"
    by (simp_all add: mx_def mn_def max_def min_def)
  note a = sector_quotient [OF d yz]
  note b = sector_quotient [OF d zx]
  note c = sector_quotient [OF d xy]
  have "mx = x \<or> mx = y \<or> mx = z"
    by (simp add: mx_def max_def)
  then consider "mx = x" | "mx \<noteq> x" "mx = y" | "mx \<noteq> x" "mx \<noteq> y" "mx = z"
    by blast
  then show thesis
  proof cases
    case 1
    show thesis
    proof (cases "y < z")
      case True
      with 1 a show thesis
        by (intro that [of "(y - z) / (mx - mn) + 6"]) simp_all
    next
      case False
      with 1 a show thesis
        by (intro that [of "(y - z) / (mx - mn)"]) simp_all
    qed
  next
    case 2
    with b show thesis
      by (intro that [of "(z - x) / (mx - mn) + 2"]) simp_all
  next
    case 3
    with c show thesis
      by (intro that [of "(x - y) / (mx - mn) + 4"]) simp_all
  qed
qed

lemma rgbToHsl_bounds:
  fixes r g b :: rat
  assumes "0 \<le> r" "r \<le> 255" "0 \<le> g" "g \<le> 255" "0 \<le> b" "b \<le> 255"
  obtains h s l where "rgbToHsl r g b = Some (HSL h s l)"
    "0 \<le> h" "h < 360" "0 \<le> s" "s \<le> 100" "0 \<le> l" "l \<le> 100"
proof -
  define x y z where "x = r / 255" and "y = g / 255" and "z = b / 255"
  define mx mn where "mx = max (max x y) z" and "mn = min (min x y) z"
  have unit: "0 \<le> x" "x \<le> 1" "0 \<le> y" "y \<le> 1" "0 \<le> z" "z \<le> 1"
    using assms by (simp_all add: x_def y_def z_def)
  then have m: "0 \<le> mn" "mn \<le> mx" "mx \<le> 1"
    by (simp_all add: mx_def mn_def max_def min_def)
  then have l: "0 \<le> (mx + mn) / 2 * 100" "(mx + mn) / 2 * 100 \<le> 100"
    by simp_all
  note eq = rgbToHsl_unfold [of r g b, folded x_def y_def z_def, folded mx_def mn_def]
  show thesis
  proof (cases "mx = mn")
    case True
    with eq l show thesis
      by (intro that [of 0 0 "(mx + mn) / 2 * 100"]) simp_all
  next
    case False
    with m have lt: "mn < mx"
      by simp
    obtain s where s:
      "(if (mx + mn) / 2 > 1 / 2 then jsdiv (mx - mn) (2 - mx - mn) else jsdiv (mx - mn) (mx + mn)) = Some s"
      "0 \<le> s" "s \<le> 1"
      using m(1) lt m(3) by (rule saturation_bounds)
    obtain h where h:
      "(if mx = x then do { q \<leftarrow> jsdiv (y - z) (mx - mn); Some (q + (if y < z then 6 else 0)) }
        else if mx = y then do { q \<leftarrow> jsdiv (z - x) (mx - mn); Some (q + 2) }
        else if mx = z then do { q \<leftarrow> jsdiv (x - y) (mx - mn); Some (q + 4) }
        else Some 0) = Some h"
      "0 \<le> h" "h < 6"
      using lt unfolding mx_def mn_def by (rule hue_bounds)
    have "rgbToHsl r g b = Some (HSL (h / 6 * 360) (s * 100) ((mx + mn) / 2 * 100))"
      unfolding eq using False s(1) h(1) by simp
    moreover have "0 \<le> h / 6 * 360" "h / 6 * 360 < 360" "0 \<le> s * 100" "s * 100 \<le> 100"
      using h(2,3) s(2,3) by simp_all
    ultimately show thesis
      using l by (intro that [of "h / 6 * 360" "s * 100" "(mx + mn) / 2 * 100"])
  qed
qed


text \<open>
  Claim C3. For every RGB triple with integer channels between 0 and 255, \<open>rgbToHsl\<close>
  returns a hue \<open>h\<close> with \<open>0 \<le> h < 360\<close>, a saturation \<open>s\<close> with \<open>0 \<le> s \<le> 100\<close> and a
  lightness \<open>l\<close> with \<open>0 \<le> l \<le> 100\<close>.
\<close>

theorem rgbToHsl_range:
  fixes r g b :: int
  assumes "0 \<le> r" "r \<le> 255" "0 \<le> g" "g \<le> 255" "0 \<le> b" "b \<le> 255"
  shows "\<exists>h s l. rgbToHsl (of_int r) (of_int g) (of_int b) = Some (HSL h s l) \<and>
           0 \<le> h \<and> h < 360 \<and> 0 \<le> s \<and> s \<le> 100 \<and> 0 \<le> l \<and> l \<le> 100"
proof -
  have "0 \<le> (of_int r :: rat)" "(of_int r :: rat) \<le> 255"
    "0 \<le> (of_int g :: rat)" "(of_int g :: rat) \<le> 255"
    "0 \<le> (of_int b :: rat)" "(of_int b :: rat) \<le> 255"
    using assms by simp_all
  then obtain h s l where "rgbToHsl (of_int r) (of_int g) (of_int b) = Some (HSL h s l)"
    "0 \<le> h" "h < 360" "0 \<le> s" "s \<le> 100" "0 \<le> l" "l \<le> 100"
    by (rule rgbToHsl_bounds)
  then show ?thesis
    by blast
qed

theorem rgbToHsl_range_witness:
  "(0::int) \<le> 51 \<and> (51::int) \<le> 255 \<and> (0::int) \<le> 102 \<and> (102::int) \<le> 255 \<and>
   (0::int) \<le> 153 \<and> (153::int) \<le> 255 \<and>
   rgbToHsl (of_int 51) (of_int 102) (of_int 153) = Some (HSL 210 50 40) \<and>
   (\<exists>h s l. rgbToHsl (of_int 51) (of_int 102) (of_int 153) = Some (HSL h s l) \<and>
      0 \<le> h \<and> h < 360 \<and> 0 \<le> s \<and> s \<le> 100 \<and> 0 \<le> l \<and> l \<le> 100)"
proof -
  have e: "rgbToHsl (of_int 51) (of_int 102) (of_int 153) = Some (HSL 210 50 40)"
    by (simp add: rgbToHsl_def jsdiv_def)
  have "\<exists>h s l. rgbToHsl (of_int 51) (of_int 102) (of_int 153) = Some (HSL h s l) \<and>
      0 \<le> h \<and> h < 360 \<and> 0 \<le> s \<and> s \<le> 100 \<and> 0 \<le> l \<and> l \<le> 100"
    by (rule rgbToHsl_range) simp_all
  with e show ?thesis
    by simp
qed

text \<open>
  Claim C8. In the achromatic case, where the three channels are equal, \<open>rgbToHsl\<close>
  returns saturation 0 and hue 0; this holds for every channel value \<open>v\<close>, in
  particular for every \<open>v\<close> between 0 and 255.
\<close>

theorem rgbToHsl_achromatic:
  "rgbToHsl v v v = Some (HSL 0 0 (v / 255 * 100))"
  by (simp add: rgbToHsl_def)

lemma swatchHsl_valid:
  assumes "validHexColor hex"
  obtains c where "swatchHsl hex = Some c" "0 \<le> hsl_h c" "hsl_h c < 360"
    "0 \<le> hsl_s c" "hsl_s c \<le> 100" "0 \<le> hsl_l c" "hsl_l c \<le> 100"
proof -
  from assms obtain r g b where rgb: "hexToRgb hex = RGB (Some r) (Some g) (Some b)"
    "0 \<le> r" "r \<le> 255" "0 \<le> g" "g \<le> 255" "0 \<le> b" "b \<le> 255"
    by (rule hexToRgb_valid)
  have "0 \<le> (of_int r :: rat)" "(of_int r :: rat) \<le> 255"
    "0 \<le> (of_int g :: rat)" "(of_int g :: rat) \<le> 255"
    "0 \<le> (of_int b :: rat)" "(of_int b :: rat) \<le> 255"
    using rgb by simp_all
  then obtain h s l where "rgbToHsl (of_int r) (of_int g) (of_int b) = Some (HSL h s l)"
    "0 \<le> h" "h < 360" "0 \<le> s" "s \<le> 100" "0 \<le> l" "l \<le> 100"
    by (rule rgbToHsl_bounds)
  then show thesis
    using rgb(1) by (intro that [of "HSL h s l"]) (simp_all add: swatchHsl_def)
qed

lemma shades_unfold:
  "shades c =
     [HSL (hsl_h c) (hsl_s c) (hsl_l c),
      HSL (hsl_h c) (hsl_s c) (hsl_l c * (4 / 5)),
      HSL (hsl_h c) (hsl_s c) (hsl_l c * (3 / 5)),
      HSL (hsl_h c) (hsl_s c) (hsl_l c * (2 / 5)),
      HSL (hsl_h c) (hsl_s c) (hsl_l c * (1 / 5))]"
proof -
  have "[0..<5] = [0, 1, 2, 3, 4]"
    by (simp add: upt_rec)
  then show ?thesis
    by (simp add: shades_def)
qed

text \<open>
  Claim C4. For every base colour, the shade ramp has five elements; each keeps the hue
  and the saturation of the base colour, and the lightness of the shade at position \<open>i\<close>
  is the base lightness \<open>l\<close> times \<open>1 - i * 0.2\<close>. The lightness values are therefore
  non-increasing along the ramp, and the first one is \<open>l\<close>.
\<close>

theorem shades_ramp:
  assumes "validHexColor hex"
  shows "\<exists>c. swatchHsl hex = Some c \<and>
           length (shades c) = 5 \<and>
           list_all (\<lambda>x. hsl_h x = hsl_h c \<and> hsl_s x = hsl_s c) (shades c) \<and>
           map hsl_l (shades c) = map (\<lambda>i. hsl_l c * (1 - of_nat i * (2 / 10))) [0..<5] \<and>
           sorted_wrt (\<lambda>x y. y \<le> x) (map hsl_l (shades c)) \<and>
           hsl_l (hd (shades c)) = hsl_l c"
proof -
  from assms obtain c where c: "swatchHsl hex = Some c" "0 \<le> hsl_l c"
    by (rule swatchHsl_valid)
  have "length (shades c) = 5"
    by (simp add: shades_def)
  moreover have "list_all (\<lambda>x. hsl_h x = hsl_h c \<and> hsl_s x = hsl_s c) (shades c)"
    by (simp add: shades_unfold)
  moreover have "map hsl_l (shades c) = map (\<lambda>i. hsl_l c * (1 - of_nat i * (2 / 10))) [0..<5]"
    by (simp add: shades_def Let_def comp_def)
  moreover have "sorted_wrt (\<lambda>x y. y \<le> x) (map hsl_l (shades c))"
    using c(2) by (simp add: shades_unfold mult_left_le)
  moreover have "hsl_l (hd (shades c)) = hsl_l c"
    by (simp add: shades_unfold)
  ultimately show ?thesis
    using c(1) by blast
qed

theorem shades_ramp_witness:
  "validHexColor (js ''#336699'') \<and>
   swatchHsl (js ''#336699'') = Some (HSL 210 50 40) \<and>
   map hsl_l (shades (HSL 210 50 40)) = [40, 32, 24, 16, 8] \<and>
   sorted_wrt (\<lambda>x y. y \<le> x) (map hsl_l (shades (HSL 210 50 40))) \<and>
   hsl_l (hd (shades (HSL 210 50 40))) = 40"
proof -
  have v: "validHexColor (js ''#336699'')"
    by code_simp
  have e: "swatchHsl (js ''#336699'') = Some (HSL 210 50 40)"
    by code_simp
  have m: "map hsl_l (shades (HSL 210 50 40)) = [40, 32, 24, 16, 8]"
    by (simp add: shades_unfold)
  from shades_ramp [OF v] e
  have "sorted_wrt (\<lambda>x y. y \<le> x) (map hsl_l (shades (HSL 210 50 40))) \<and>
        hsl_l (hd (shades (HSL 210 50 40))) = 40"
    by auto
  with v e m show ?thesis
    by simp
qed

text \<open>
  Claim C10. For the valid colour \<open>#ff0001\<close>, that is \<open>r = 255\<close>, \<open>g = 0\<close>, \<open>b = 1\<close>, the
  hue returned by \<open>rgbToHsl\<close> is \<open>6116 / 17\<close>, which lies strictly between 359.5 and
  360; \<open>Math.round\<close> takes it to 360, and the HSL text of the swatch begins with 360.
\<close>

theorem hslText_hue_360:
  "hexToRgb (js ''#ff0001'') = RGB (Some 255) (Some 0) (Some 1) \<and>
   rgbToHsl 255 0 1 = Some (HSL (6116 / 17) 100 50) \<and>
   (719 / 2 :: rat) < 6116 / 17 \<and> (6116 / 17 :: rat) < 360 \<and>
   mathRound (6116 / 17) = 360 \<and>
   swatchHslText (js ''#ff0001'') = Some (js ''360, 100%, 50%'')"
  by code_simp


section \<open>Renaming an entry\<close>

lemma mapIndexed_length: "length (mapIndexed f xs) = length xs"
  by (simp add: mapIndexed_def)

lemma mapIndexed_nth: "i < length xs \<Longrightarrow> mapIndexed f xs ! i = f (xs ! i) i"
  by (simp add: mapIndexed_def)

lemma updateName_palette_nth:
  assumes "i < length (palette s)"
  shows "palette (updateName index nm s) ! i =
     (if of_nat i = index then (palette s ! i)\<lparr>name := nm\<rparr> else palette s ! i)"
  using assms by (simp add: updateName_def mapIndexed_nth)

text \<open>
  Claim C6. If \<open>k\<close> is a position of the palette, \<open>updateName k nm\<close> replaces the name of the
  entry at position \<open>k\<close> by \<open>nm\<close> and leaves the colour of that entry, every other entry
  and the adjustments as they were. If the index is not a position of the palette, the
  session is unchanged.
\<close>

theorem updateName_frame:
  "(k < length (palette s) \<longrightarrow>
      updateName (of_nat k) nm s =
        s\<lparr>palette := (palette s)[k := \<lparr>color = color (palette s ! k), name = nm\<rparr>]\<rparr>) \<and>
   ((\<forall>i. i < length (palette s) \<longrightarrow> of_nat i \<noteq> index) \<longrightarrow> updateName index nm s = s)"
proof (intro conjI impI)
  assume k: "k < length (palette s)"
  have "palette (updateName (of_nat k) nm s) = (palette s)[k := \<lparr>color = color (palette s ! k), name = nm\<rparr>]"
  proof (rule nth_equalityI)
    show "length (palette (updateName (of_nat k) nm s)) =
          length ((palette s)[k := \<lparr>color = color (palette s ! k), name = nm\<rparr>])"
      by (simp add: updateName_def mapIndexed_length)
  next
    fix i
    assume "i < length (palette (updateName (of_nat k) nm s))"
    then have i: "i < length (palette s)"
      by (simp add: updateName_def mapIndexed_length)
    show "palette (updateName (of_nat k) nm s) ! i =
          (palette s)[k := \<lparr>color = color (palette s ! k), name = nm\<rparr>] ! i"
      using i k by (cases "i = k") (simp_all add: updateName_palette_nth)
  qed
  then show "updateName (of_nat k) nm s =
      s\<lparr>palette := (palette s)[k := \<lparr>color = color (palette s ! k), name = nm\<rparr>]\<rparr>"
    by (simp add: updateName_def)
next
  assume out: "\<forall>i. i < length (palette s) \<longrightarrow> of_nat i \<noteq> index"
  have "palette (updateName index nm s) = palette s"
  proof (rule nth_equalityI)
    show "length (palette (updateName index nm s)) = length (palette s)"
      by (simp add: updateName_def mapIndexed_length)
  next
    fix i
    assume "i < length (palette (updateName index nm s))"
    then have i: "i < length (palette s)"
      by (simp add: updateName_def mapIndexed_length)
    with out show "palette (updateName index nm s) ! i = palette s ! i"
      by (simp add: updateName_palette_nth)
  qed
  then show "updateName index nm s = s"
    by (simp add: updateName_def)
qed

theorem updateName_frame_witness:
  "1 < length (palette demo) \<and>
   updateName 1 (js ''Custom'') demo =
     demo\<lparr>palette := [\<lparr>color = js ''#aabbcc'', name = js ''Sky-aab''\<rparr>,
                        \<lparr>color = js ''#000000'', name = js ''Custom''\<rparr>]\<rparr> \<and>
   (\<forall>i. \<not> (i < length (palette demo) \<and> rat_of_nat i = 2)) \<and>
   updateName 2 (js ''Custom'') demo = demo"
proof -
  have l: "length (palette demo) = 2"
    by (simp add: demo_def)
  have out: "\<forall>i. i < length (palette demo) \<longrightarrow> rat_of_nat i \<noteq> 2"
    unfolding l by auto
  have a: "updateName 1 (js ''Custom'') demo =
     demo\<lparr>palette := [\<lparr>color = js ''#aabbcc'', name = js ''Sky-aab''\<rparr>,
                        \<lparr>color = js ''#000000'', name = js ''Custom''\<rparr>]\<rparr>"
    using updateName_frame [of 1 demo "js ''Custom''" 2] l
    by (simp add: demo_def)
  have b: "updateName 2 (js ''Custom'') demo = demo"
    using updateName_frame [of 1 demo "js ''Custom''" 2] out
    by blast
  from l out a b show ?thesis
    by simp
qed

section \<open>Random colours\<close>

lemma unat_hexDigit:
  assumes "d < 16"
  shows "unat (hexDigit d) = (if d < 10 then 48 + d else 87 + d)"
proof -
  have "unat (of_nat (48 + d) :: 16 word) = 48 + d" "unat (of_nat (87 + d) :: 16 word) = 87 + d"
    using assms by (simp_all only: unat_of_nat) simp_all
  then show ?thesis
    by (simp only: hexDigit_def split: if_split) simp
qed

lemma hexDigit_props:
  assumes "d < 16"
  shows "isHexDigit (hexDigit d)" "digitValue (hexDigit d) = Some d"
  using assms by (simp_all add: isHexDigit_def digitValue_def word_le_nat_alt unat_hexDigit)

lemma hexDigits_all_hex: "list_all isHexDigit (hexDigits n)"
proof (induction n rule: hexDigits.induct)
  case (1 n)
  show ?case
  proof (cases "n < 16")
    case True
    then show ?thesis
      by (simp add: hexDigits.simps [of n] hexDigit_props)
  next
    case False
    with 1 show ?thesis
      by (simp add: hexDigits.simps [of n] hexDigit_props)
  qed
qed

lemma hexDigits_length: "0 < k \<Longrightarrow> n < 16 ^ k \<Longrightarrow> length (hexDigits n) \<le> k"
proof (induction k arbitrary: n)
  case 0
  then show ?case by simp
next
  case (Suc k)
  show ?case
  proof (cases "n < 16")
    case True
    then show ?thesis
      by (simp add: hexDigits.simps [of n])
  next
    case False
    with Suc.prems have k: "0 < k"
      by (cases k) simp_all
    from Suc.prems have "n div 16 < 16 ^ k"
      by (simp add: less_mult_imp_div_less mult.commute)
    with k have "length (hexDigits (n div 16)) \<le> k"
      by (rule Suc.IH)
    with False show ?thesis
      by (simp add: hexDigits.simps [of n])
  qed
qed

lemma hexDigits_nonempty: "hexDigits n \<noteq> []"
  by (simp add: hexDigits.simps [of n])

lemma radix16_snoc: "radix16 (ds @ [d]) = 16 * radix16 ds + d"
  by (simp add: radix16_def)

lemma radix16_zeros: "radix16 (replicate k 0 @ ds) = radix16 ds"
proof -
  have "foldl (\<lambda>a d. 16 * a + d) (0::nat) (replicate k 0) = 0"
    by (induction k) simp_all
  then show ?thesis
    by (simp add: radix16_def)
qed

lemma radix16_hexDigits: "radix16 (map (\<lambda>c. the (digitValue c)) (hexDigits n)) = n"
proof (induction n rule: hexDigits.induct)
  case (1 n)
  show ?case
  proof (cases "n < 16")
    case True
    then show ?thesis
      by (simp add: hexDigits.simps [of n] hexDigit_props radix16_def)
  next
    case False
    with 1 show ?thesis
      by (simp add: hexDigits.simps [of n] hexDigit_props radix16_snoc)
  qed
qed

lemma randomColor_slot:
  assumes "0 \<le> y" "y < 1"
  shows "0 \<le> \<lfloor>y * 16777215\<rfloor>" "\<lfloor>y * 16777215\<rfloor> \<le> 16777214"
proof -
  from assms show "0 \<le> \<lfloor>y * 16777215\<rfloor>"
    by simp
  from assms have "y * 16777215 < 16777215"
    by simp
  then have "\<lfloor>y * 16777215\<rfloor> < 16777215"
    by (simp add: floor_less_iff)
  then show "\<lfloor>y * 16777215\<rfloor> \<le> 16777214"
    by simp
qed

lemma randomColor_eq:
  assumes "0 \<le> y"
  shows "randomColor y = cu CHR ''#'' # padStart 6 (cu CHR ''0'') (hexDigits (nat \<lfloor>y * 16777215\<rfloor>))"
  using assms by (simp add: randomColor_def toString16_def)

lemma padded_value:
  "radix16 (map (\<lambda>c. the (digitValue c)) (padStart k (cu CHR ''0'') (hexDigits n))) = n"
proof -
  have "the (digitValue (cu CHR ''0'')) = 0"
    by (simp add: digitValue_def cu_def)
  then show ?thesis
    by (simp add: padStart_def radix16_zeros radix16_hexDigits)
qed

lemma randomColor_value:
  assumes "0 \<le> y"
  shows "radix16 (map (\<lambda>c. the (digitValue c)) (tl (randomColor y))) = nat \<lfloor>y * 16777215\<rfloor>"
  using assms by (simp add: randomColor_eq padded_value)

lemma randomColor_valid:
  assumes "0 \<le> y" "y < 1"
  shows "validHexColor (randomColor y)"
proof -
  let ?n = "nat \<lfloor>y * 16777215\<rfloor>"
  from randomColor_slot [OF assms] have "?n < 16777215"
    by linarith
  then have "?n < 16 ^ 6"
    by simp
  then have "length (hexDigits ?n) \<le> 6"
    by (intro hexDigits_length) simp_all
  then have "length (padStart 6 (cu CHR ''0'') (hexDigits ?n)) = 6"
    by (simp add: padStart_def)
  moreover have "isHexDigit (cu CHR ''0'')"
    by (simp add: isHexDigit_def cu_def)
  then have "list_all isHexDigit (replicate k (cu CHR ''0''))" for k
    by (induction k) simp_all
  then have "list_all isHexDigit (padStart 6 (cu CHR ''0'') (hexDigits ?n))"
    by (simp add: padStart_def hexDigits_all_hex)
  ultimately show ?thesis
    using assms(1) by (simp add: randomColor_eq validHexColor_def)
qed

lemma randomColor_not_white:
  assumes "0 \<le> y" "y < 1"
  shows "randomColor y \<noteq> js ''#ffffff''"
proof
  assume "randomColor y = js ''#ffffff''"
  then have "radix16 (map (\<lambda>c. the (digitValue c)) (tl (randomColor y))) =
             radix16 (map (\<lambda>c. the (digitValue c)) (tl (js ''#ffffff'')))"
    by simp
  also have "\<dots> = 16777215"
    by (simp add: js_def cu_def digitValue_def radix16_def)
  finally have "nat \<lfloor>y * 16777215\<rfloor> = 16777215"
    using assms(1) by (simp add: randomColor_value)
  with randomColor_slot [OF assms] show False
    by linarith
qed

lemma generateHarmoniousPalette_unfold:
  "generateHarmoniousPalette g =
     ([randomColor (g 1), randomColor (g 2), randomColor (g 3), randomColor (g 4), randomColor (g 5)],
      \<lambda>n. g (n + 6))"
  by (simp add: generateHarmoniousPalette_def mathRandom_def eval_nat_numeral)

lemma labelled_unfold:
  "labelled [c1, c2, c3, c4, c5] g =
     ([\<lparr>color = c1, name = nameAt \<lfloor>g 0 * 8\<rfloor> @ js ''-'' @ slice 1 4 c1\<rparr>,
       \<lparr>color = c2, name = nameAt \<lfloor>g 1 * 8\<rfloor> @ js ''-'' @ slice 1 4 c2\<rparr>,
       \<lparr>color = c3, name = nameAt \<lfloor>g 2 * 8\<rfloor> @ js ''-'' @ slice 1 4 c3\<rparr>,
       \<lparr>color = c4, name = nameAt \<lfloor>g 3 * 8\<rfloor> @ js ''-'' @ slice 1 4 c4\<rparr>,
       \<lparr>color = c5, name = nameAt \<lfloor>g 4 * 8\<rfloor> @ js ''-'' @ slice 1 4 c5\<rparr>],
      \<lambda>n. g (n + 5))"
  by (simp add: labelled_def generateColorName_def mathRandom_def names_def eval_nat_numeral)

lemma handleGenerate_unfold:
  "handleGenerate s g =
     (s\<lparr>palette :=
        [\<lparr>color = randomColor (g 1), name = nameAt \<lfloor>g 6 * 8\<rfloor> @ js ''-'' @ slice 1 4 (randomColor (g 1))\<rparr>,
         \<lparr>color = randomColor (g 2), name = nameAt \<lfloor>g 7 * 8\<rfloor> @ js ''-'' @ slice 1 4 (randomColor (g 2))\<rparr>,
         \<lparr>color = randomColor (g 3), name = nameAt \<lfloor>g 8 * 8\<rfloor> @ js ''-'' @ slice 1 4 (randomColor (g 3))\<rparr>,
         \<lparr>color = randomColor (g 4), name = nameAt \<lfloor>g 9 * 8\<rfloor> @ js ''-'' @ slice 1 4 (randomColor (g 4))\<rparr>,
         \<lparr>color = randomColor (g 5), name = nameAt \<lfloor>g 10 * 8\<rfloor> @ js ''-'' @ slice 1 4 (randomColor (g 5))\<rparr>]\<rparr>,
      \<lambda>n. g (n + 11))"
  by (simp add: handleGenerate_def generateHarmoniousPalette_unfold labelled_unfold add.commute)

lemma floor_numeral_div: "\<lfloor>(numeral a / numeral b :: rat)\<rfloor> = numeral a div numeral b"
  using floor_divide_of_int_eq [of "numeral a" "numeral b", where ?'a = rat] by simp

lemmas hexDigits_eval = hexDigits.simps [of "numeral k"] hexDigits.simps [of 0] hexDigits.simps [of 1] for k

lemmas randomColor_eval =
  randomColor_def floor_numeral_div toString16_def hexDigits_eval padStart_def hexDigit_def js_def cu_def

lemma unitInterval_demoStream: "unitInterval demoStream"
  by (simp add: unitInterval_def demoStream_def)

text \<open>
  Claim C7. Whatever the session, \<open>handleGenerate\<close> replaces the palette by exactly five
  entries; the colour of each is \<open>#\<close> followed by six hexadecimal digits and the name of
  each is not empty; the adjustments are unchanged. The random numbers are in the unit
  interval, as \<open>Math.random\<close> guarantees.
\<close>

theorem handleGenerate_entries:
  assumes "unitInterval g"
  shows "length (palette (fst (handleGenerate s g))) = 5 \<and>
         list_all (\<lambda>e. validHexColor (color e) \<and> name e \<noteq> []) (palette (fst (handleGenerate s g))) \<and>
         adjustments (fst (handleGenerate s g)) = adjustments s"
proof -
  from assms have "validHexColor (randomColor (g n))" for n
    by (simp add: unitInterval_def randomColor_valid)
  moreover have "js ''-'' \<noteq> []"
    by (simp add: js_def)
  ultimately show ?thesis
    by (simp add: handleGenerate_unfold)
qed

theorem handleGenerate_entries_witness:
  "unitInterval demoStream \<and>
   palette (fst (handleGenerate demo demoStream)) =
     [\<lparr>color = js ''#555555'', name = js ''Ocean-555''\<rparr>,
      \<lparr>color = js ''#3fffff'', name = js ''Sky-3ff''\<rparr>,
      \<lparr>color = js ''#333333'', name = js ''Sky-333''\<rparr>,
      \<lparr>color = js ''#2aaaaa'', name = js ''Sky-2aa''\<rparr>,
      \<lparr>color = js ''#249249'', name = js ''Sky-249''\<rparr>] \<and>
   length (palette (fst (handleGenerate demo demoStream))) = 5 \<and>
   list_all (\<lambda>e. validHexColor (color e) \<and> name e \<noteq> []) (palette (fst (handleGenerate demo demoStream))) \<and>
   adjustments (fst (handleGenerate demo demoStream)) = \<lparr>hue = 3, saturation = 0, brightness = 0\<rparr>"
proof -
  have e: "palette (fst (handleGenerate demo demoStream)) =
     [\<lparr>color = js ''#555555'', name = js ''Ocean-555''\<rparr>,
      \<lparr>color = js ''#3fffff'', name = js ''Sky-3ff''\<rparr>,
      \<lparr>color = js ''#333333'', name = js ''Sky-333''\<rparr>,
      \<lparr>color = js ''#2aaaaa'', name = js ''Sky-2aa''\<rparr>,
      \<lparr>color = js ''#249249'', name = js ''Sky-249''\<rparr>]"
    by (simp add: handleGenerate_unfold demoStream_def randomColor_eval nameAt_def names_def slice_def)
  have a: "adjustments demo = \<lparr>hue = 3, saturation = 0, brightness = 0\<rparr>"
    by (simp add: demo_def)
  from handleGenerate_entries [OF unitInterval_demoStream, of demo] e a unitInterval_demoStream
  show ?thesis
    by simp
qed

text \<open>
  Claim C9. The palette generator never produces \<open>#ffffff\<close>. The integer it formats,
  \<open>Math.floor(Math.random() * 16777215)\<close>, lies between 0 and 16777214 for every random
  number of the unit interval and takes each of these values, so the colours of a
  slot are exactly 16777215 of the 16777216 colours of 24 bits, and white is not one of
  them.
\<close>

theorem white_unreachable:
  "(\<forall>g. unitInterval g \<longrightarrow> js ''#ffffff'' \<notin> set (fst (generateHarmoniousPalette g))) \<and>
   (\<forall>y. 0 \<le> y \<and> y < 1 \<longrightarrow>
        0 \<le> \<lfloor>y * 16777215\<rfloor> \<and> \<lfloor>y * 16777215\<rfloor> \<le> 16777214 \<and> randomColor y \<noteq> js ''#ffffff'') \<and>
   (\<forall>n. 0 \<le> n \<and> n \<le> 16777214 \<longrightarrow> (\<exists>y::rat. 0 \<le> y \<and> y < 1 \<and> \<lfloor>y * 16777215\<rfloor> = n)) \<and>
   card (randomColor ` {y. 0 \<le> y \<and> y < 1}) = 16777215"
proof (intro conjI allI impI)
  fix g
  assume "unitInterval g"
  then have "js ''#ffffff'' \<noteq> randomColor (g n)" for n
    using randomColor_not_white [of "g n"] by (auto simp: unitInterval_def)
  then show "js ''#ffffff'' \<notin> set (fst (generateHarmoniousPalette g))"
    by (simp add: generateHarmoniousPalette_unfold)
next
  fix y :: rat
  assume "0 \<le> y \<and> y < 1"
  then show "0 \<le> \<lfloor>y * 16777215\<rfloor>" "\<lfloor>y * 16777215\<rfloor> \<le> 16777214" "randomColor y \<noteq> js ''#ffffff''"
    by (simp_all add: randomColor_slot randomColor_not_white)
next
  fix n :: int
  assume n: "0 \<le> n \<and> n \<le> 16777214"
  have "\<lfloor>(of_int n / 16777215 :: rat) * 16777215\<rfloor> = n"
    by simp
  moreover have "0 \<le> (of_int n / 16777215 :: rat)" "(of_int n / 16777215 :: rat) < 1"
    using n by simp_all
  ultimately show "\<exists>y::rat. 0 \<le> y \<and> y < 1 \<and> \<lfloor>y * 16777215\<rfloor> = n"
    by blast
next
  let ?enc = "\<lambda>n. cu CHR ''#'' # padStart 6 (cu CHR ''0'') (hexDigits n)"
  have "randomColor ` {y. 0 \<le> y \<and> y < 1} = ?enc ` {..<16777215}"
  proof (intro set_eqI iffI)
    fix c
    assume "c \<in> randomColor ` {y. 0 \<le> y \<and> y < 1}"
    then obtain y where y: "0 \<le> y" "y < 1" "c = randomColor y"
      by auto
    from randomColor_slot [OF y(1,2)] have "nat \<lfloor>y * 16777215\<rfloor> < 16777215"
      by linarith
    with y show "c \<in> ?enc ` {..<16777215}"
      by (auto simp: randomColor_eq)
  next
    fix c
    assume "c \<in> ?enc ` {..<16777215}"
    then obtain n where n: "n < 16777215" "c = ?enc n"
      by auto
    let ?y = "of_nat n / 16777215 :: rat"
    have "0 \<le> ?y" "?y < 1"
      using n(1) by simp_all
    moreover have "nat \<lfloor>?y * 16777215\<rfloor> = n"
      by simp
    then have "randomColor ?y = c"
      using n(2) \<open>0 \<le> ?y\<close> by (simp only: randomColor_eq)
    ultimately show "c \<in> randomColor ` {y. 0 \<le> y \<and> y < 1}"
      by blast
  qed
  moreover have "inj_on ?enc {..<16777215}"
  proof (rule inj_onI)
    fix m n
    assume "?enc m = ?enc n"
    then have "radix16 (map (\<lambda>c. the (digitValue c)) (padStart 6 (cu CHR ''0'') (hexDigits m))) =
               radix16 (map (\<lambda>c. the (digitValue c)) (padStart 6 (cu CHR ''0'') (hexDigits n)))"
      by simp
    then show "m = n"
      by (simp only: padded_value)
  qed
  then have "card (?enc ` {..<16777215}) = 16777215"
    by (simp add: card_image)
  ultimately show "card (randomColor ` {y. 0 \<le> y \<and> y < 1}) = 16777215"
    by simp
qed

theorem white_unreachable_witness:
  "unitInterval demoStream \<and>
   fst (generateHarmoniousPalette demoStream) =
     [js ''#555555'', js ''#3fffff'', js ''#333333'', js ''#2aaaaa'', js ''#249249''] \<and>
   js ''#ffffff'' \<notin> set (fst (generateHarmoniousPalette demoStream)) \<and>
   (0::rat) \<le> 16777214 / 16777215 \<and> (16777214 / 16777215 :: rat) < 1 \<and>
   \<lfloor>(16777214 / 16777215 :: rat) * 16777215\<rfloor> = 16777214 \<and>
   randomColor (16777214 / 16777215) = js ''#fffffe'' \<and>
   randomColor (16777214 / 16777215) \<noteq> js ''#ffffff''"
proof -
  have e: "fst (generateHarmoniousPalette demoStream) =
     [js ''#555555'', js ''#3fffff'', js ''#333333'', js ''#2aaaaa'', js ''#249249'']"
    by (simp add: generateHarmoniousPalette_unfold demoStream_def randomColor_eval)
  have c: "randomColor (16777214 / 16777215) = js ''#fffffe''"
    by (simp add: randomColor_eval)
  have r: "(0::rat) \<le> 16777214 / 16777215 \<and> (16777214 / 16777215 :: rat) < 1"
    by simp
  from white_unreachable unitInterval_demoStream
  have "js ''#ffffff'' \<notin> set (fst (generateHarmoniousPalette demoStream))"
    by blast
  moreover from white_unreachable r
  have "randomColor (16777214 / 16777215) \<noteq> js ''#ffffff''"
    by blast
  ultimately show ?thesis
    using e c r unitInterval_demoStream by simp
qed

text \<open>
  Claim C2. The colours of the five slots do not depend on the base hue (the first random
  number): slot \<open>i\<close> is \<open>randomColor\<close> of the random number drawn for it, the integer
  \<open>Math.floor(y * 16777215)\<close> written as \<open>#\<close> and six hexadecimal digits. At the largest
  random number a 53-bit generator can return, \<open>1 - 2^-53\<close>, every slot is \<open>#fffffe\<close>,
  and no random number of the unit interval gives \<open>#ffffff\<close>: a slot is not drawn from
  all 16777216 colours.
\<close>

theorem generateHarmoniousPalette_top_draw:
  "(\<forall>g. fst (generateHarmoniousPalette g) =
        [randomColor (g 1), randomColor (g 2), randomColor (g 3), randomColor (g 4), randomColor (g 5)]) \<and>
   fst (generateHarmoniousPalette (\<lambda>n. 1 - 1 / 2 ^ 53)) = replicate 5 (js ''#fffffe'') \<and>
   \<not> (\<exists>y. 0 \<le> y \<and> y < 1 \<and> randomColor y = js ''#ffffff'')"
proof -
  have "randomColor (1 - 1 / 2 ^ 53) = js ''#fffffe''"
    by (simp add: randomColor_eval)
  moreover have "replicate 5 x = [x, x, x, x, x]" for x :: jsstring
    by (simp add: eval_nat_numeral)
  moreover have "\<not> (\<exists>y. 0 \<le> y \<and> y < 1 \<and> randomColor y = js ''#ffffff'')"
    using randomColor_not_white by blast
  ultimately show ?thesis
    by (simp add: generateHarmoniousPalette_unfold)
qed

section \<open>Export and reading back\<close>

lemma isHexDigit_digitValue:
  assumes "isHexDigit c"
  obtains d where "digitValue c = Some d"
  using assms by (rule isHexDigit_cases)

lemma unicodeEscape_digits:
  obtains x y z w where "unicodeEscape c = [0x5C, cu CHR ''u'', x, y, z, w]"
    "hex4 x y z w = Some c"
proof -
  let ?p = "padStart 4 (cu CHR ''0'') (hexDigits (unat c))"
  have "unat c < 2 ^ 16"
    using unsigned_less [of c, where ?'a = nat] by simp
  then have "unat c < 16 ^ 4"
    by simp
  then have "length (hexDigits (unat c)) \<le> 4"
    by (intro hexDigits_length) simp_all
  then have "length ?p = 4"
    by (simp add: padStart_def)
  then obtain x y z w where p: "?p = [x, y, z, w]"
    by (auto simp: length_Suc_conv eval_nat_numeral)
  have "isHexDigit (cu CHR ''0'')"
    by (simp add: isHexDigit_def cu_def)
  then have "list_all isHexDigit (replicate k (cu CHR ''0''))" for k
    by (induction k) simp_all
  then have "list_all isHexDigit ?p"
    by (simp add: padStart_def hexDigits_all_hex)
  with p have hex: "isHexDigit x" "isHexDigit y" "isHexDigit z" "isHexDigit w"
    by simp_all
  obtain a where a: "digitValue x = Some a"
    using hex(1) by (rule isHexDigit_digitValue)
  obtain b where b: "digitValue y = Some b"
    using hex(2) by (rule isHexDigit_digitValue)
  obtain d where d: "digitValue z = Some d"
    using hex(3) by (rule isHexDigit_digitValue)
  obtain e where e: "digitValue w = Some e"
    using hex(4) by (rule isHexDigit_digitValue)
  have "radix16 (map (\<lambda>c. the (digitValue c)) ?p) = unat c"
    by (rule padded_value)
  with p a b d e have "radix16 [a, b, d, e] = unat c"
    by simp
  then have "hex4 x y z w = Some c"
    using a b d e by (simp add: hex4_def)
  moreover have "toString16 (uint c) = hexDigits (unat c)"
    by (simp add: toString16_def)
  then have "unicodeEscape c = [0x5C, cu CHR ''u'', x, y, z, w]"
    using p by (simp add: unicodeEscape_def)
  ultimately show thesis
    by (intro that)
qed

lemma tokenize_plain:
  assumes "c \<noteq> 0x22" "c \<noteq> 0x5C" "\<not> c < 0x20"
  shows "tokenize (Some acc) (c # rest) = tokenize (Some (acc @ [c])) rest"
  using assms by simp

lemma tokenize_simpleEscape:
  assumes "simpleEscape e = Some u" "e \<noteq> cu CHR ''u''"
  shows "tokenize (Some acc) (0x5C # e # rest) = tokenize (Some (acc @ [u])) rest"
  using assms by simp

lemma tokenize_unicodeEscape:
  "tokenize (Some acc) (unicodeEscape c @ rest) = tokenize (Some (acc @ [c])) rest"
proof -
  obtain x y z w where "unicodeEscape c = [0x5C, cu CHR ''u'', x, y, z, w]"
    "hex4 x y z w = Some c"
    by (rule unicodeEscape_digits)
  then show ?thesis
    by simp
qed

lemma tokenize_close:
  "tokenize (Some acc) (0x22 # rest) = map_option (Cons (Str acc)) (tokenize None rest)"
  by simp


lemma surrogate_plain:
  assumes "isLeadingSurrogate c \<or> isTrailingSurrogate c"
  shows "c \<noteq> 0x22" "c \<noteq> 0x5C" "\<not> c < 0x20"
  using assms
  by (auto simp: isLeadingSurrogate_def isTrailingSurrogate_def word_le_nat_alt word_less_nat_alt)

lemma escapeJSON_cases:
  obtains
    (simple) e where "escapeJSON (c # cs) = 0x5C # e # escapeJSON cs"
      "simpleEscape e = Some c" "e \<noteq> cu CHR ''u''"
  | (unicode) "escapeJSON (c # cs) = unicodeEscape c @ escapeJSON cs"
  | (pair) d ds where "cs = d # ds" "escapeJSON (c # cs) = c # d # escapeJSON ds"
      "c \<noteq> 0x22" "c \<noteq> 0x5C" "\<not> c < 0x20" "d \<noteq> 0x22" "d \<noteq> 0x5C" "\<not> d < 0x20"
  | (plain) "escapeJSON (c # cs) = c # escapeJSON cs" "c \<noteq> 0x22" "c \<noteq> 0x5C" "\<not> c < 0x20"
proof -
  consider "c = 0x08" | "c = 0x09" | "c = 0x0A" | "c = 0x0C" | "c = 0x0D" | "c = 0x22" | "c = 0x5C"
    | (other) "c \<noteq> 0x08" "c \<noteq> 0x09" "c \<noteq> 0x0A" "c \<noteq> 0x0C" "c \<noteq> 0x0D" "c \<noteq> 0x22" "c \<noteq> 0x5C"
    by blast
  then show thesis
  proof cases
    case 1
    then show thesis
      by (intro simple [of "cu CHR ''b''"]) (simp_all add: simpleEscape_def cu_def)
  next
    case 2
    then show thesis
      by (intro simple [of "cu CHR ''t''"]) (simp_all add: simpleEscape_def cu_def)
  next
    case 3
    then show thesis
      by (intro simple [of "cu CHR ''n''"]) (simp_all add: simpleEscape_def cu_def)
  next
    case 4
    then show thesis
      by (intro simple [of "cu CHR ''f''"]) (simp_all add: simpleEscape_def cu_def)
  next
    case 5
    then show thesis
      by (intro simple [of "cu CHR ''r''"]) (simp_all add: simpleEscape_def cu_def)
  next
    case 6
    then show thesis
      by (intro simple [of "0x22"]) (simp_all add: simpleEscape_def cu_def)
  next
    case 7
    then show thesis
      by (intro simple [of "0x5C"]) (simp_all add: simpleEscape_def cu_def)
  next
    case other
    show thesis
    proof (cases "c < 0x20")
      case True
      with other show thesis
        by (intro unicode) simp
    next
      case control: False
      show thesis
      proof (cases "isLeadingSurrogate c")
        case lead: True
        show thesis
        proof (cases cs)
          case Nil
          with other control lead show thesis
            by (intro unicode) simp
        next
          case (Cons d ds)
          show thesis
          proof (cases "isTrailingSurrogate d")
            case True
            with other control lead Cons surrogate_plain [of d] show thesis
              by (intro pair [of d ds]) simp_all
          next
            case False
            with other control lead Cons show thesis
              by (intro unicode) simp
          qed
        qed
      next
        case nolead: False
        show thesis
        proof (cases "isTrailingSurrogate c")
          case True
          with other control nolead show thesis
            by (intro unicode) simp
        next
          case False
          with other control nolead show thesis
            by (intro plain) simp_all
        qed
      qed
    qed
  qed
qed

lemma tokenize_escapeJSON:
  "tokenize (Some acc) (escapeJSON s @ 0x22 # rest) =
     map_option (Cons (Str (acc @ s))) (tokenize None rest)"
proof (induction s arbitrary: acc rule: length_induct)
  case (1 s)
  show ?case
  proof (cases s)
    case Nil
    then show ?thesis
      by simp
  next
    case (Cons c cs)
    have tail: "tokenize (Some acc') (escapeJSON cs @ 0x22 # rest) =
        map_option (Cons (Str (acc' @ cs))) (tokenize None rest)" for acc'
      using 1 Cons by simp
    show ?thesis
    proof (cases rule: escapeJSON_cases [of c cs])
      case (simple e)
      then show ?thesis
        unfolding Cons using tail [of "acc @ [c]"]
        by (simp only: append_Cons tokenize_simpleEscape) simp
    next
      case unicode
      then show ?thesis
        unfolding Cons using tail [of "acc @ [c]"]
        by (simp only: append_assoc tokenize_unicodeEscape) simp
    next
      case (pair d ds)
      have "tokenize (Some acc') (escapeJSON ds @ 0x22 # rest) =
          map_option (Cons (Str (acc' @ ds))) (tokenize None rest)" for acc'
        using 1 Cons pair(1) by simp
      from this [of "(acc @ [c]) @ [d]"] pair show ?thesis
        unfolding Cons by (simp only: append_Cons tokenize_plain) simp
    next
      case plain
      then show ?thesis
        unfolding Cons using tail [of "acc @ [c]"]
        by (simp only: append_Cons tokenize_plain) simp
    qed
  qed
qed

lemma tokenize_quoteJSONString:
  "tokenize None (quoteJSONString s @ rest) = map_option (Cons (Str s)) (tokenize None rest)"
  using tokenize_escapeJSON [of "[]" s rest]
  by (simp add: quoteJSONString_def isJSONWhiteSpace_def cu_def)


lemma tokenize_whitespace:
  "list_all isJSONWhiteSpace w \<Longrightarrow> tokenize None (w @ rest) = tokenize None rest"
  by (induction w) simp_all

lemma tokenize_entry:
  assumes "list_all isJSONWhiteSpace ind"
  shows "tokenize None (serializeEntry (js ''  '') e ind @ rest) =
     map_option (\<lambda>ts. entryTokens e @ ts) (tokenize None rest)"
proof -
  have ws: "isJSONWhiteSpace 0x0A" "isJSONWhiteSpace 0x20"
    by (simp_all add: isJSONWhiteSpace_def)
  have punct: "\<not> isJSONWhiteSpace 0x7B" "\<not> isJSONWhiteSpace 0x7D" "\<not> isJSONWhiteSpace 0x3A"
    "\<not> isJSONWhiteSpace 0x2C"
    by (simp_all add: isJSONWhiteSpace_def)
  show ?thesis
  proof (cases "tokenize None rest")
    case None
    then show ?thesis
      using assms ws punct
      by (simp add: serializeEntry_def serializeJSONObject_def js_def cu_def
          tokenize_quoteJSONString tokenize_whitespace)
  next
    case (Some ts)
    then show ?thesis
      using assms ws punct
      by (simp add: serializeEntry_def serializeJSONObject_def js_def cu_def entryTokens_def
          tokenize_quoteJSONString tokenize_whitespace)
  qed
qed

lemma tokenize_punct:
  "tokenize None (js ''['' @ rest) = map_option (Cons LBracket) (tokenize None rest)"
  "tokenize None (js '']'' @ rest) = map_option (Cons RBracket) (tokenize None rest)"
  "tokenize None (js '','' @ rest) = map_option (Cons Comma) (tokenize None rest)"
  "tokenize None (0x0A # rest) = tokenize None rest"
  "tokenize None (js ''  '' @ rest) = tokenize None rest"
  by (simp_all add: js_def cu_def isJSONWhiteSpace_def)

lemma tokenize_body:
  assumes "list_all isJSONWhiteSpace ind"
  shows "es \<noteq> [] \<Longrightarrow>
     tokenize None
       (joinWith (js '','' @ [0x0A] @ ind) (map (\<lambda>e. serializeEntry (js ''  '') e ind) es) @
        [0x0A] @ js '']'') = Some (bodyTokens es)"
proof (induction es rule: bodyTokens.induct)
  case 1
  then show ?case
    by simp
next
  case (2 e)
  have "tokenize None ([0x0A] @ js '']'') = Some [RBracket]"
    by (simp add: js_def cu_def isJSONWhiteSpace_def)
  moreover have "tokenize None (serializeEntry (js ''  '') e ind @ [0x0A] @ js '']'') =
      map_option (\<lambda>ts. entryTokens e @ ts) (tokenize None ([0x0A] @ js '']''))"
    using assms by (rule tokenize_entry)
  ultimately show ?case
    by simp
next
  case (3 e e' es)
  let ?sep = "js '','' @ [0x0A] @ ind"
  let ?f = "\<lambda>e. serializeEntry (js ''  '') e ind"
  let ?tail = "joinWith ?sep (map ?f (e' # es)) @ [0x0A] @ js '']''"
  from 3 have IH: "tokenize None ?tail = Some (bodyTokens (e' # es))"
    by simp
  have "tokenize None (?sep @ ?tail) = map_option (Cons Comma) (tokenize None (ind @ ?tail))"
    by (simp only: append_assoc append_Cons append_Nil tokenize_punct)
  also have "tokenize None (ind @ ?tail) = tokenize None ?tail"
    using assms by (rule tokenize_whitespace)
  finally have sep: "tokenize None (?sep @ ?tail) = Some (Comma # bodyTokens (e' # es))"
    using IH by simp
  have "joinWith ?sep (map ?f (e # e' # es)) @ [0x0A] @ js '']'' = ?f e @ ?sep @ ?tail"
    by simp
  then have "tokenize None (joinWith ?sep (map ?f (e # e' # es)) @ [0x0A] @ js '']'') =
        map_option (\<lambda>ts. entryTokens e @ ts) (tokenize None (?sep @ ?tail))"
    using assms by (simp only: tokenize_entry)
  with sep show ?case
    by simp
qed

lemma parseEntry_entryTokens: "parseEntry (entryTokens e) = Some (color e, name e)"
  by (simp add: parseEntry_def entryTokens_def)

lemma length_entryTokens: "length (entryTokens e) = 9"
  by (simp add: entryTokens_def)

lemma parseEntries_step:
  "parseEntries (entryTokens e @ ts) =
     (case ts of
        [RBracket] \<Rightarrow> Some [(color e, name e)]
      | Comma # ts' \<Rightarrow> map_option (Cons (color e, name e)) (parseEntries ts')
      | _ \<Rightarrow> None)"
  by (subst parseEntries.simps) (simp add: length_entryTokens parseEntry_entryTokens)

lemma parseEntries_body:
  "es \<noteq> [] \<Longrightarrow> parseEntries (bodyTokens es) = Some (map (\<lambda>e. (color e, name e)) es)"
proof (induction es rule: bodyTokens.induct)
  case 1
  then show ?case
    by simp
next
  case (2 e)
  show ?case
    by (simp add: parseEntries_step)
next
  case (3 e e' es)
  then show ?case
    by (simp add: parseEntries_step)
qed

lemma bodyTokens_head: "es \<noteq> [] \<Longrightarrow> \<exists>ts. bodyTokens es = LBrace # ts \<and> ts \<noteq> []"
  by (induction es rule: bodyTokens.induct) (simp_all add: entryTokens_def)

lemma stringifyPalette_nonempty:
  assumes "p \<noteq> []"
  shows "stringifyPalette p =
      js ''['' @ [0x0A] @ js ''  '' @
      joinWith (js '','' @ [0x0A] @ js ''  '') (map (\<lambda>e. serializeEntry (js ''  '') e (js ''  '')) p) @
      [0x0A] @ js '']''"
proof -
  have "js ''  '' \<noteq> []"
    by (simp add: js_def)
  with assms show ?thesis
    by (simp add: stringifyPalette_def serializeJSONArray_def Let_def comp_def)
qed

lemma parseSnapshot_stringifyPalette:
  "parseSnapshot (stringifyPalette p) = Some (map (\<lambda>e. (color e, name e)) p)"
proof (cases "p = []")
  case True
  then show ?thesis
    by (simp add: parseSnapshot_def stringifyPalette_def serializeJSONArray_def js_def cu_def
        isJSONWhiteSpace_def)
next
  case False
  let ?body = "joinWith (js '','' @ [0x0A] @ js ''  '')
      (map (\<lambda>e. serializeEntry (js ''  '') e (js ''  '')) p) @ [0x0A] @ js '']''"
  have ws: "list_all isJSONWhiteSpace (js ''  '')"
    by (simp add: js_def cu_def isJSONWhiteSpace_def)
  have "stringifyPalette p = js ''['' @ [0x0A] @ js ''  '' @ ?body"
    using False by (simp add: stringifyPalette_nonempty)
  then have "tokenize None (stringifyPalette p) = map_option (Cons LBracket) (tokenize None ?body)"
    by (simp only: append_Cons append_Nil tokenize_punct)
  then have "tokenize None (stringifyPalette p) = Some (LBracket # bodyTokens p)"
    using tokenize_body [OF ws False] by simp
  moreover obtain ts where "bodyTokens p = LBrace # ts" "ts \<noteq> []"
    using bodyTokens_head [OF False] by blast
  ultimately show ?thesis
    using parseEntries_body [OF False]
    by (simp add: parseSnapshot_def split: list.splits)
qed


text \<open>
  Claim C5. For every session, \<open>handleExport\<close> writes the entries and nothing else: the
  text does not depend on the adjustments. It is \<open>[]\<close> for an empty palette and otherwise
  a JSON array with one object per entry, in order, each with the fields \<open>color\<close> and
  \<open>name\<close>, indented by two spaces per level. Reading the text back gives the colour
  and name pairs of the session, in the same order.
\<close>

theorem handleExport_roundtrip:
  "parseSnapshot (handleExport s) = Some (map (\<lambda>e. (color e, name e)) (palette s)) \<and>
   handleExport (s\<lparr>adjustments := a\<rparr>) = handleExport s \<and>
   handleExport s =
     (if palette s = [] then js ''[]''
      else js ''['' @ [0x0A] @ js ''  '' @
           joinWith (js '','' @ [0x0A] @ js ''  '')
             (map (\<lambda>e. js ''{'' @ [0x0A] @
                        js ''    '' @ quoteJSONString (js ''color'') @ js '': '' @
                          quoteJSONString (color e) @ js '','' @ [0x0A] @
                        js ''    '' @ quoteJSONString (js ''name'') @ js '': '' @
                          quoteJSONString (name e) @ [0x0A] @
                        js ''  }'') (palette s)) @
           [0x0A] @ js '']'')"
proof (intro conjI)
  show "parseSnapshot (handleExport s) = Some (map (\<lambda>e. (color e, name e)) (palette s))"
    by (simp add: handleExport_def parseSnapshot_stringifyPalette)
next
  show "handleExport (s\<lparr>adjustments := a\<rparr>) = handleExport s"
    by (simp add: handleExport_def)
next
  have entry: "serializeEntry (js ''  '') e (js ''  '') =
      js ''{'' @ [0x0A] @
      js ''    '' @ quoteJSONString (js ''color'') @ js '': '' @
        quoteJSONString (color e) @ js '','' @ [0x0A] @
      js ''    '' @ quoteJSONString (js ''name'') @ js '': '' @
        quoteJSONString (name e) @ [0x0A] @
      js ''  }''" for e
    by (simp add: serializeEntry_def serializeJSONObject_def js_def)
  show "handleExport s =
     (if palette s = [] then js ''[]''
      else js ''['' @ [0x0A] @ js ''  '' @
           joinWith (js '','' @ [0x0A] @ js ''  '')
             (map (\<lambda>e. js ''{'' @ [0x0A] @
                        js ''    '' @ quoteJSONString (js ''color'') @ js '': '' @
                          quoteJSONString (color e) @ js '','' @ [0x0A] @
                        js ''    '' @ quoteJSONString (js ''name'') @ js '': '' @
                          quoteJSONString (name e) @ [0x0A] @
                        js ''  }'') (palette s)) @
           [0x0A] @ js '']'')"
  proof (cases "palette s = []")
    case True
    then show ?thesis
      by (simp add: handleExport_def stringifyPalette_def serializeJSONArray_def)
  next
    case False
    with stringifyPalette_nonempty [of "palette s"] show ?thesis
      by (simp add: handleExport_def entry)
  qed
qed

theorem handleExport_roundtrip_witness:
  "parseSnapshot (handleExport demo) =
     Some [(js ''#aabbcc'', js ''Sky-aab''), (js ''#000000'', js ''Dusk-000'')]"
  using handleExport_roundtrip [of demo "adjustments demo", THEN conjunct1]
  by (simp add: demo_def)

end
